theory Spec2Isabelle
  imports Complex_Main "HOL-Library.Word" "HOL-Library.Multiset"
begin

section \<open>Strings and numbers of the host language\<close>

text \<open>
  A string of the program is a sequence of UTF-16 code units. The literals of
  \<^verbatim>\<open>src/index.tsx\<close> that lie outside ASCII are written below by their code units.
  A number of the program that holds a count or a timestamp in milliseconds is an
  \<^typ>\<open>int\<close>; the rounding of IEEE doubles beyond \<open>2^53\<close> is outside the model.
\<close>

type_synonym code_unit = "16 word"
type_synonym jsstring = "code_unit list"

definition ascii :: "string \<Rightarrow> jsstring" where
  "ascii s = map of_char s"

definition digit_char :: "nat \<Rightarrow> code_unit" where
  "digit_char d = of_nat (48 + d)"

definition is_digit :: "code_unit \<Rightarrow> bool" where
  "is_digit c \<longleftrightarrow> 0x30 \<le> c \<and> c \<le> 0x39"

text \<open>Decimal digits of a natural number, most significant first.\<close>

fun digits :: "nat \<Rightarrow> jsstring" where
  "digits n = (if n < 10 then [digit_char n] else digits (n div 10) @ [digit_char (n mod 10)])"

declare digits.simps [simp del]

text \<open>
  \<^verbatim>\<open>Number.prototype.toString()\<close> and the conversion of a template literal, on an
  integer (below \<open>10^21\<close> in absolute value, where the host prints all digits).
\<close>

definition Number_toString :: "int \<Rightarrow> jsstring" where
  "Number_toString i = (if i < 0 then 0x2D # digits (nat (- i)) else digits (nat i))"

section \<open>Types and constants (lines 8-40)\<close>

datatype QuestionCategory =
    YanYu       \<comment> \<open>8A00 8BED 7406 89E3 4E0E 8868 8FBE\<close>
  | ShuLiang    \<comment> \<open>6570 91CF 5173 7CFB\<close>
  | PanDuan     \<comment> \<open>5224 65AD 63A8 7406\<close>
  | ZiLiao      \<comment> \<open>8D44 6599 5206 6790\<close>
  | ChangShi    \<comment> \<open>5E38 8BC6 5224 65AD\<close>
  | AnLi        \<comment> \<open>7EFC 5408 5E94 7528 002D 6848 4F8B 5206 6790\<close>
  | WenShu      \<comment> \<open>7EFC 5408 5E94 7528 002D 6587 4E66 5199 4F5C\<close>
  | QiTa        \<comment> \<open>5176 4ED6\<close>

datatype Subject =
    ZhiCe       \<comment> \<open>804C 6D4B\<close>
  | ZongYing    \<comment> \<open>7EFC 5E94\<close>

text \<open>
  \<^verbatim>\<open>type MasteryStatus = 'mastered' | 'review_needed' | null\<close>. The field of a
  question is optional, so it holds a \<open>MasteryStatus option\<close>, \<open>None\<close> for an absent
  field.
\<close>

datatype MasteryStatus = mastered | review_needed | null_status

record Question =
  idQ :: jsstring
  imageUrl :: jsstring
  subject :: Subject
  category :: QuestionCategory
  subCategory :: jsstring
  questionText :: jsstring
  aiAnalysis :: jsstring
  myThinking :: jsstring
  correctResolution :: jsstring
  rootCause :: "jsstring option"
  masteryStatus :: "MasteryStatus option"
  createdAt :: int
  reviewCount :: int
  lastReviewedAt :: "int option"

fun CATEGORIES :: "Subject \<Rightarrow> QuestionCategory list" where
  "CATEGORIES ZhiCe = [YanYu, ShuLiang, PanDuan, ZiLiao, ChangShi]"
| "CATEGORIES ZongYing = [AnLi, WenShu]"

datatype error = TypeError | SyntaxError

section \<open>Period keys (lines 57-64)\<close>

text \<open>
  \<^verbatim>\<open>new Date(ts)\<close> belongs to the host. A time value beyond \<open>8.64 * 10^15\<close>
  milliseconds from the epoch gives an invalid date, whose fields are \<^verbatim>\<open>NaN\<close>
  (\<open>None\<close> below). The fields of a valid date follow the definitions of the language
  standard (\<open>Day\<close>, \<open>DayFromYear\<close>, \<open>YearFromTime\<close>, \<open>InLeapYear\<close>,
  \<open>MonthFromTime\<close>, \<open>DateFromTime\<close>) at local time, which is the time value plus
  the offset of the time zone, \<open>tza\<close>, a parameter. The standard defines the year as
  the largest \<open>y\<close> whose first day is not after the given day; here it is computed
  from an estimate that is off by one at most.
\<close>

datatype Date = Invalid_Date | Time_Value int

definition new_Date :: "int \<Rightarrow> Date" where
  "new_Date ts = (if \<bar>ts\<bar> \<le> 8640000000000000 then Time_Value ts else Invalid_Date)"

definition LocalTime :: "(int \<Rightarrow> int) \<Rightarrow> int \<Rightarrow> int" where
  "LocalTime tza t = t + tza t"

definition Day :: "int \<Rightarrow> int" where
  "Day t = t div 86400000"

definition DayFromYear :: "int \<Rightarrow> int" where
  "DayFromYear y =
     365 * (y - 1970) + (y - 1969) div 4 - (y - 1901) div 100 + (y - 1601) div 400"

definition YearFromTime :: "int \<Rightarrow> int" where
  "YearFromTime t =
     (let day = Day t; y = 1970 + (day * 400) div 146097
      in if day < DayFromYear y then y - 1
         else if DayFromYear (y + 1) \<le> day then y + 1
         else y)"

definition InLeapYear :: "int \<Rightarrow> int" where
  "InLeapYear t =
     (let y = YearFromTime t
      in if y mod 4 \<noteq> 0 then 0 else if y mod 100 \<noteq> 0 then 1 else if y mod 400 \<noteq> 0 then 0 else 1)"

definition DayWithinYear :: "int \<Rightarrow> int" where
  "DayWithinYear t = Day t - DayFromYear (YearFromTime t)"

definition MonthFromTime :: "int \<Rightarrow> int" where
  "MonthFromTime t =
     (let d = DayWithinYear t; leap = InLeapYear t
      in if d < 31 then 0
         else if d < 59 + leap then 1
         else if d < 90 + leap then 2
         else if d < 120 + leap then 3
         else if d < 151 + leap then 4
         else if d < 181 + leap then 5
         else if d < 212 + leap then 6
         else if d < 243 + leap then 7
         else if d < 273 + leap then 8
         else if d < 304 + leap then 9
         else if d < 334 + leap then 10
         else 11)"

definition DateFromTime :: "int \<Rightarrow> int" where
  "DateFromTime t =
     (let d = DayWithinYear t; leap = InLeapYear t; m = MonthFromTime t
      in if m = 0 then d + 1
         else if m = 1 then d - 30
         else if m = 2 then d - 58 - leap
         else if m = 3 then d - 89 - leap
         else if m = 4 then d - 119 - leap
         else if m = 5 then d - 150 - leap
         else if m = 6 then d - 180 - leap
         else if m = 7 then d - 211 - leap
         else if m = 8 then d - 242 - leap
         else if m = 9 then d - 272 - leap
         else if m = 10 then d - 303 - leap
         else d - 333 - leap)"

definition getFullYear :: "(int \<Rightarrow> int) \<Rightarrow> Date \<Rightarrow> int option" where
  "getFullYear tza d =
     (case d of Invalid_Date \<Rightarrow> None | Time_Value t \<Rightarrow> Some (YearFromTime (LocalTime tza t)))"

definition getMonth :: "(int \<Rightarrow> int) \<Rightarrow> Date \<Rightarrow> int option" where
  "getMonth tza d =
     (case d of Invalid_Date \<Rightarrow> None | Time_Value t \<Rightarrow> Some (MonthFromTime (LocalTime tza t)))"

definition getDate :: "(int \<Rightarrow> int) \<Rightarrow> Date \<Rightarrow> int option" where
  "getDate tza d =
     (case d of Invalid_Date \<Rightarrow> None | Time_Value t \<Rightarrow> Some (DateFromTime (LocalTime tza t)))"

text \<open>The conversion of a number to a string in a template literal.\<close>

definition ToString :: "int option \<Rightarrow> jsstring" where
  "ToString x = (case x of None \<Rightarrow> ascii ''NaN'' | Some i \<Rightarrow> Number_toString i)"

text \<open>\<^verbatim>\<open>day <= 15\<close>, which is false on \<^verbatim>\<open>NaN\<close>.\<close>

definition first_half :: "int option \<Rightarrow> bool" where
  "first_half day = (case day of None \<Rightarrow> False | Some n \<Rightarrow> n \<le> 15)"

definition nian :: code_unit where "nian = 0x5E74"
definition yue :: code_unit where "yue = 0x6708"
definition shang_ban_yue :: jsstring where "shang_ban_yue = [0x4E0A, 0x534A, 0x6708]"
definition xia_ban_yue :: jsstring where "xia_ban_yue = [0x4E0B, 0x534A, 0x6708]"

definition getPeriodKey :: "(int \<Rightarrow> int) \<Rightarrow> int \<Rightarrow> jsstring" where
  "getPeriodKey tza ts =
     (let d = new_Date ts;
          year = getFullYear tza d;
          month = map_option (\<lambda>m. m + 1) (getMonth tza d);
          day = getDate tza d;
          part = (if first_half day then shang_ban_yue else xia_ban_yue)
      in ToString year @ [nian] @ ToString month @ [yue] @ part)"

section \<open>The storage helper (lines 44-53)\<close>

text \<open>
  \<^verbatim>\<open>JSON.parse\<close> belongs to the host. It is modelled by a parser of the JSON grammar
  that raises \<^verbatim>\<open>SyntaxError\<close> on a text outside the grammar. A number is kept as
  the text that denotes it and an object as the list of its members in the order of
  the text. The parser of values counts its nested calls down from the length of the
  text; a nested value and a further element each come after a character of the text,
  so the count is there to make the recursion structural, and running out of it
  is reported as a text outside the grammar.
\<close>

datatype json =
    JNull
  | JBool bool
  | JNumber jsstring
  | JString jsstring
  | JArray "json list"
  | JObject "(jsstring \<times> json) list"

definition is_ws :: "code_unit \<Rightarrow> bool" where
  "is_ws c \<longleftrightarrow> c = 0x20 \<or> c = 0x09 \<or> c = 0x0A \<or> c = 0x0D"

definition skip_ws :: "jsstring \<Rightarrow> jsstring" where
  "skip_ws s = dropWhile is_ws s"

definition hex_value :: "code_unit \<Rightarrow> code_unit option" where
  "hex_value c =
     (if 0x30 \<le> c \<and> c \<le> 0x39 then Some (c - 0x30)
      else if 0x41 \<le> c \<and> c \<le> 0x46 then Some (c - 0x41 + 10)
      else if 0x61 \<le> c \<and> c \<le> 0x66 then Some (c - 0x61 + 10)
      else None)"

definition hex4 :: "code_unit \<Rightarrow> code_unit \<Rightarrow> code_unit \<Rightarrow> code_unit \<Rightarrow> code_unit option" where
  "hex4 a b c d =
     (case (hex_value a, hex_value b, hex_value c, hex_value d) of
        (Some x, Some y, Some z, Some w) \<Rightarrow> Some (x * 4096 + y * 256 + z * 16 + w)
      | _ \<Rightarrow> None)"

definition escape :: "code_unit \<Rightarrow> code_unit option" where
  "escape e =
     (if e = 0x22 then Some 0x22
      else if e = 0x5C then Some 0x5C
      else if e = 0x2F then Some 0x2F
      else if e = 0x62 then Some 0x08
      else if e = 0x66 then Some 0x0C
      else if e = 0x6E then Some 0x0A
      else if e = 0x72 then Some 0x0D
      else if e = 0x74 then Some 0x09
      else None)"

fun json_chars :: "jsstring \<Rightarrow> jsstring \<Rightarrow> (jsstring \<times> jsstring) option" where
  "json_chars [] acc = None"
| "json_chars (c # cs) acc =
     (if c = 0x22 then Some (rev acc, cs)
      else if c = 0x5C then
        (case cs of
           [] \<Rightarrow> None
         | e # r \<Rightarrow>
             if e = 0x75 then
               (case r of
                  h1 # h2 # h3 # h4 # r' \<Rightarrow>
                    (case hex4 h1 h2 h3 h4 of
                       None \<Rightarrow> None
                     | Some u \<Rightarrow> json_chars r' (u # acc))
                | _ \<Rightarrow> None)
             else
               (case escape e of
                  None \<Rightarrow> None
                | Some u \<Rightarrow> json_chars r (u # acc)))
      else if c < 0x20 then None
      else json_chars cs (c # acc))"

definition json_digits :: "jsstring \<Rightarrow> (jsstring \<times> jsstring) option" where
  "json_digits s =
     (let ds = takeWhile is_digit s in if ds = [] then None else Some (ds, dropWhile is_digit s))"

definition json_number :: "jsstring \<Rightarrow> (jsstring \<times> jsstring) option" where
  "json_number s =
     (let (sign, s1) = (case s of c # r \<Rightarrow> if c = 0x2D then ([c], r) else ([], s) | [] \<Rightarrow> ([], s))
      in case (case s1 of
                 [] \<Rightarrow> None
               | d # r \<Rightarrow> if d = 0x30 then Some ([d], r) else json_digits s1) of
           None \<Rightarrow> None
         | Some (ip, s2) \<Rightarrow>
             (case (case s2 of
                      c # r \<Rightarrow>
                        if c = 0x2E
                        then map_option (\<lambda>(ds, r'). (c # ds, r')) (json_digits r)
                        else Some ([], s2)
                    | [] \<Rightarrow> Some ([], s2)) of
                None \<Rightarrow> None
              | Some (fp, s3) \<Rightarrow>
                  (case (case s3 of
                           c # r \<Rightarrow>
                             if c = 0x65 \<or> c = 0x45
                             then (case r of
                                     g # r' \<Rightarrow>
                                       if g = 0x2B \<or> g = 0x2D
                                       then map_option (\<lambda>(ds, r''). (c # g # ds, r'')) (json_digits r')
                                       else map_option (\<lambda>(ds, r''). (c # ds, r'')) (json_digits r)
                                   | [] \<Rightarrow> None)
                             else Some ([], s3)
                         | [] \<Rightarrow> Some ([], s3)) of
                     None \<Rightarrow> None
                   | Some (ep, s4) \<Rightarrow> Some (sign @ ip @ fp @ ep, s4))))"

definition json_literal :: "jsstring \<Rightarrow> (json \<times> jsstring) option" where
  "json_literal s =
     (if take 4 s = ascii ''true'' then Some (JBool True, drop 4 s)
      else if take 5 s = ascii ''false'' then Some (JBool False, drop 5 s)
      else if take 4 s = ascii ''null'' then Some (JNull, drop 4 s)
      else map_option (\<lambda>(n, r). (JNumber n, r)) (json_number s))"

fun json_value :: "nat \<Rightarrow> jsstring \<Rightarrow> (json \<times> jsstring) option"
  and json_elements :: "nat \<Rightarrow> jsstring \<Rightarrow> json list \<Rightarrow> (json list \<times> jsstring) option"
  and json_members :: "nat \<Rightarrow> jsstring \<Rightarrow> (jsstring \<times> json) list
        \<Rightarrow> ((jsstring \<times> json) list \<times> jsstring) option" where
  "json_value 0 s = None"
| "json_value (Suc n) s =
     (case skip_ws s of
        [] \<Rightarrow> None
      | c # cs \<Rightarrow>
          if c = 0x7B then
            (case skip_ws cs of
               [] \<Rightarrow> None
             | c' # r \<Rightarrow>
                 if c' = 0x7D then Some (JObject [], r)
                 else map_option (\<lambda>(ms, r'). (JObject ms, r')) (json_members n cs []))
          else if c = 0x5B then
            (case skip_ws cs of
               [] \<Rightarrow> None
             | c' # r \<Rightarrow>
                 if c' = 0x5D then Some (JArray [], r)
                 else map_option (\<lambda>(vs, r'). (JArray vs, r')) (json_elements n cs []))
          else if c = 0x22 then map_option (\<lambda>(str, r). (JString str, r)) (json_chars cs [])
          else json_literal (c # cs))"
| "json_elements 0 s acc = None"
| "json_elements (Suc n) s acc =
     (case json_value n s of
        None \<Rightarrow> None
      | Some (v, r) \<Rightarrow>
          (case skip_ws r of
             [] \<Rightarrow> None
           | c # r' \<Rightarrow>
               if c = 0x2C then json_elements n r' (v # acc)
               else if c = 0x5D then Some (rev (v # acc), r')
               else None))"
| "json_members 0 s acc = None"
| "json_members (Suc n) s acc =
     (case skip_ws s of
        [] \<Rightarrow> None
      | c # cs \<Rightarrow>
          if c \<noteq> 0x22 then None
          else
            (case json_chars cs [] of
               None \<Rightarrow> None
             | Some (k, r) \<Rightarrow>
                 (case skip_ws r of
                    [] \<Rightarrow> None
                  | c2 # r2 \<Rightarrow>
                      if c2 \<noteq> 0x3A then None
                      else
                        (case json_value n r2 of
                           None \<Rightarrow> None
                         | Some (v, r3) \<Rightarrow>
                             (case skip_ws r3 of
                                [] \<Rightarrow> None
                              | c3 # r4 \<Rightarrow>
                                  if c3 = 0x2C then json_members n r4 ((k, v) # acc)
                                  else if c3 = 0x7D then Some (rev ((k, v) # acc), r4)
                                  else None)))))"

definition JSON_parse :: "jsstring \<Rightarrow> error + json" where
  "JSON_parse text =
     (case json_value (Suc (length text)) text of
        None \<Rightarrow> Inl SyntaxError
      | Some (v, rest) \<Rightarrow> if skip_ws rest = [] then Inr v else Inl SyntaxError)"

text \<open>
  \<^verbatim>\<open>loadQuestions\<close>; its argument is the value of
  \<^verbatim>\<open>localStorage.getItem(STORAGE_KEY)\<close>, \<open>None\<close> for \<^verbatim>\<open>null\<close>. The empty string is
  falsy, as \<^verbatim>\<open>null\<close> is. The type assertion to \<^verbatim>\<open>Question[]\<close> checks nothing, so
  the result is the value that was parsed.
\<close>

definition loadQuestions :: "jsstring option \<Rightarrow> error + json" where
  "loadQuestions item =
     (case item of
        None \<Rightarrow> Inr (JArray [])
      | Some data \<Rightarrow> if data = [] then Inr (JArray []) else JSON_parse data)"

section \<open>The application container (lines 872-891)\<close>

datatype Tab = dashboard | add | review

text \<open>
  The state of \<^verbatim>\<open>App\<close> together with the one slot of \<^verbatim>\<open>localStorage\<close> that the
  program uses (\<^verbatim>\<open>STORAGE_KEY\<close>). \<^verbatim>\<open>JSON.stringify\<close> belongs to the host and is a
  parameter of the functions that persist; a write to the slot is taken to succeed.
\<close>

record App =
  activeTab :: Tab
  questions :: "Question list"
  storage :: "jsstring option"

definition saveQuestions :: "(Question list \<Rightarrow> jsstring) \<Rightarrow> Question list \<Rightarrow> App \<Rightarrow> App" where
  "saveQuestions stringify qs app = app\<lparr>storage := Some (stringify qs)\<rparr>"

definition handleSaveQuestion :: "(Question list \<Rightarrow> jsstring) \<Rightarrow> Question \<Rightarrow> App \<Rightarrow> App" where
  "handleSaveQuestion stringify q app =
     (let updated = q # questions app
      in (saveQuestions stringify updated (app\<lparr>questions := updated\<rparr>))\<lparr>activeTab := review\<rparr>)"

definition handleUpdateQuestion :: "(Question list \<Rightarrow> jsstring) \<Rightarrow> Question \<Rightarrow> App \<Rightarrow> App" where
  "handleUpdateQuestion stringify q app =
     (let updated = map (\<lambda>item. if idQ item = idQ q then q else item) (questions app)
      in saveQuestions stringify updated (app\<lparr>questions := updated\<rparr>))"

section \<open>Saving a new question (lines 145-160 and 319-338)\<close>

text \<open>
  The state of the form of \<^verbatim>\<open>AddQuestion\<close> that \<^verbatim>\<open>handleSave\<close> reads.
  \<^verbatim>\<open>handleSave\<close> reads the clock twice, for the id and for \<^verbatim>\<open>createdAt\<close>; the
  two readings are \<open>now_id\<close> and \<open>now_created\<close>. \<^verbatim>\<open>!image\<close> holds for \<^verbatim>\<open>null\<close>
  and for the empty string. \<open>saves\<close> runs a sequence of creations, each with its
  readings of the clock and its form.
\<close>

record AddQuestion =
  image :: "jsstring option"
  form_subject :: Subject
  form_category :: QuestionCategory
  form_subCategory :: jsstring
  form_aiAnalysis :: jsstring
  form_myThinking :: jsstring
  form_correctResolution :: jsstring
  form_rootCause :: jsstring
  tempMastery :: MasteryStatus

definition handleSave ::
  "(Question list \<Rightarrow> jsstring) \<Rightarrow> int \<Rightarrow> int \<Rightarrow> AddQuestion \<Rightarrow> App \<Rightarrow> App" where
  "handleSave stringify now_id now_created form app =
     (case image form of
        None \<Rightarrow> app
      | Some img \<Rightarrow>
          if img = [] then app
          else
            (let newQ = \<lparr>idQ = Number_toString now_id,
                         imageUrl = img,
                         subject = form_subject form,
                         category = form_category form,
                         subCategory = form_subCategory form,
                         questionText = ascii ''Image Question'',
                         aiAnalysis = form_aiAnalysis form,
                         myThinking = form_myThinking form,
                         correctResolution = form_correctResolution form,
                         rootCause = Some (form_rootCause form),
                         masteryStatus = Some (tempMastery form),
                         createdAt = now_created,
                         reviewCount = 0,
                         lastReviewedAt = None\<rparr>
             in handleSaveQuestion stringify newQ app))"

fun saves :: "(Question list \<Rightarrow> jsstring) \<Rightarrow> (int \<times> int \<times> AddQuestion) list \<Rightarrow> App \<Rightarrow> App" where
  "saves stringify [] app = app"
| "saves stringify ((now_id, now_created, form) # rest) app =
     saves stringify rest (handleSave stringify now_id now_created form app)"

section \<open>Review and exam mode (lines 532-602)\<close>

datatype Mode = list_mode | exam_mode

datatype FilterMode = all_filter | priority

record ReviewMode =
  mode :: Mode
  examQuestions :: "Question list"
  currentExamIndex :: int
  showAnswer :: bool
  examTitle :: jsstring
  filterMode :: FilterMode


text \<open>
  Writing \<^verbatim>\<open>xs[i] = v\<close>: inside the array the element is replaced, at
  \<open>i = length\<close> the array grows by one, a negative \<open>i\<close> names a property and leaves
  the elements alone, and beyond the length the host leaves holes, which a list cannot
  hold (\<open>None\<close>).
\<close>

definition array_set :: "'a list \<Rightarrow> int \<Rightarrow> 'a \<Rightarrow> 'a list option" where
  "array_set xs i v =
     (if i < 0 then Some xs
      else if i < int (length xs) then Some (xs[nat i := v])
      else if i = int (length xs) then Some (xs @ [v])
      else None)"

text \<open>
  \<^verbatim>\<open>Array.prototype.sort(comparefn)\<close> belongs to the host. It is modelled as a stable
  insertion sort: the elements are taken in order, and the element \<open>x\<close> is put
  before the first element \<open>y\<close> already placed for which \<^verbatim>\<open>comparefn(y, x) > 0\<close>. The
  comparator is given as that test; it may read and advance a state, as the comparator
  of the shuffle does with the stream of \<^verbatim>\<open>Math.random()\<close>.
\<close>

fun insert_by :: "('s \<Rightarrow> 'a \<Rightarrow> 'a \<Rightarrow> bool \<times> 's) \<Rightarrow> 'a \<Rightarrow> 'a list \<Rightarrow> 's \<Rightarrow> 'a list \<times> 's" where
  "insert_by gt x [] s = ([x], s)"
| "insert_by gt x (y # ys) s =
     (case gt s y x of (b, s') \<Rightarrow>
        if b then (x # y # ys, s')
        else (case insert_by gt x ys s' of (zs, s'') \<Rightarrow> (y # zs, s'')))"

fun sort_by :: "('s \<Rightarrow> 'a \<Rightarrow> 'a \<Rightarrow> bool \<times> 's) \<Rightarrow> 'a list \<Rightarrow> 'a list \<Rightarrow> 's \<Rightarrow> 'a list \<times> 's" where
  "sort_by gt [] placed s = (placed, s)"
| "sort_by gt (x # xs) placed s =
     (case insert_by gt x placed s of (placed', s') \<Rightarrow> sort_by gt xs placed' s')"

definition Array_sort :: "('s \<Rightarrow> 'a \<Rightarrow> 'a \<Rightarrow> bool \<times> 's) \<Rightarrow> 'a list \<Rightarrow> 's \<Rightarrow> 'a list \<times> 's" where
  "Array_sort gt xs s = sort_by gt xs [] s"

text \<open>
  \<^verbatim>\<open>[...pool].sort(() => 0.5 - Math.random())\<close>: the \<open>n\<close>-th call of the comparator
  draws \<open>random n\<close>, a number in \<open>[0, 1)\<close>.
\<close>

definition shuffle :: "(nat \<Rightarrow> real) \<Rightarrow> 'a list \<Rightarrow> 'a list" where
  "shuffle random pool = fst (Array_sort (\<lambda>n a b. (0 < 1 / 2 - random n, Suc n)) pool 0)"

text \<open>The messages of \<^verbatim>\<open>alert\<close> and the titles of an exam, by their code units.\<close>

definition alert_no_questions :: jsstring where
  "alert_no_questions =
     [0x5F53, 0x524D, 0x5217, 0x8868, 0x6CA1, 0x6709, 0x9898, 0x76EE, 0x53EF, 0x8003, 0xFF01]"


definition title_priority :: jsstring where
  "title_priority = [0x91CD, 0x70B9, 0x9898, 0x76EE, 0x7A81, 0x51FB]"

definition title_random :: jsstring where
  "title_random = [0x968F, 0x673A, 0x5DE9, 0x56FA, 0x7EC3, 0x4E60]"

definition title_period_suffix :: jsstring where
  "title_period_suffix = [0x0020, 0x6A21, 0x62DF, 0x8003, 0x8BD5]"

text \<open>
  The handlers of \<^verbatim>\<open>ReviewMode\<close> return the message of an \<^verbatim>\<open>alert\<close>, if they raise
  one, and the new state of the component. \<^verbatim>\<open>questions\<close> is the property the
  component receives from \<^verbatim>\<open>App\<close>.
\<close>

definition startRandomExam ::
  "(nat \<Rightarrow> real) \<Rightarrow> Question list \<Rightarrow> ReviewMode \<Rightarrow> jsstring option \<times> ReviewMode" where
  "startRandomExam random qs rm =
     (let pool = (if filterMode rm = priority
                  then filter (\<lambda>q. masteryStatus q = Some review_needed) qs
                  else qs)
      in if length pool = 0 then (Some alert_no_questions, rm)
         else
           (let shuffled = shuffle random pool
            in (None, rm\<lparr>examQuestions := shuffled,
                         currentExamIndex := 0,
                         showAnswer := False,
                         examTitle := (if filterMode rm = priority then title_priority
                                       else title_random),
                         mode := exam_mode\<rparr>)))"

definition startPeriodExam ::
  "(nat \<Rightarrow> real) \<Rightarrow> jsstring \<Rightarrow> Question list \<Rightarrow> ReviewMode \<Rightarrow> ReviewMode" where
  "startPeriodExam random periodKey periodQuestions rm =
     (let shuffled = shuffle random periodQuestions
      in rm\<lparr>examQuestions := shuffled,
             currentExamIndex := 0,
             showAnswer := False,
             examTitle := periodKey @ title_period_suffix,
             mode := exam_mode\<rparr>)"

text \<open>\<^verbatim>\<open>{ ...q, masteryStatus: status }\<close>, the first line of \<^verbatim>\<open>handleUpdateMastery\<close>.\<close>

definition setMasteryStatus :: "Question \<Rightarrow> MasteryStatus \<Rightarrow> Question" where
  "setMasteryStatus q status = q\<lparr>masteryStatus := Some status\<rparr>"

text \<open>
  \<^verbatim>\<open>onUpdateQuestion\<close> is \<^verbatim>\<open>handleUpdateQuestion\<close> of \<^verbatim>\<open>App\<close>, so the handlers that
  call it work on the state of both components.
\<close>

definition handleUpdateMastery ::
  "(Question list \<Rightarrow> jsstring) \<Rightarrow> Question \<Rightarrow> MasteryStatus \<Rightarrow> ReviewMode \<times> App
     \<Rightarrow> (ReviewMode \<times> App) option" where
  "handleUpdateMastery stringify q status st =
     (case st of (rm, app) \<Rightarrow>
        let updatedQ = setMasteryStatus q status
        in (case array_set (examQuestions rm) (currentExamIndex rm) updatedQ of
              None \<Rightarrow> None
            | Some newExamQs \<Rightarrow>
                Some (rm\<lparr>examQuestions := newExamQs\<rparr>,
                      handleUpdateQuestion stringify updatedQ app)))"


text \<open>
  The button "previous question" of the exam view (lines 710-718): its handler, the
  condition under which the button is disabled, and a click on it, which runs the
  handler only when the button is enabled.
\<close>

definition previous_onClick :: "ReviewMode \<Rightarrow> ReviewMode" where
  "previous_onClick rm =
     rm\<lparr>currentExamIndex := max 0 (currentExamIndex rm - 1), showAnswer := False\<rparr>"

definition previous_disabled :: "ReviewMode \<Rightarrow> bool" where
  "previous_disabled rm \<longleftrightarrow> currentExamIndex rm = 0"

definition previous_click :: "ReviewMode \<Rightarrow> ReviewMode" where
  "previous_click rm = (if previous_disabled rm then rm else previous_onClick rm)"

section \<open>Periods (lines 604-624)\<close>

text \<open>
  \<^verbatim>\<open>periodGroups\<close> is an object used as a dictionary. Its keys are period keys, none
  of which is an array index, so \<^verbatim>\<open>Object.keys\<close> lists them in the order of their
  first insertion: the object is an association list in that order.
\<close>

fun group_push :: "jsstring \<Rightarrow> Question \<Rightarrow> (jsstring \<times> Question list) list
    \<Rightarrow> (jsstring \<times> Question list) list" where
  "group_push key q [] = [(key, [q])]"
| "group_push key q ((k, g) # rest) =
     (if k = key then (k, g @ [q]) # rest else (k, g) # group_push key q rest)"

definition periodGroups :: "(int \<Rightarrow> int) \<Rightarrow> Question list \<Rightarrow> (jsstring \<times> Question list) list" where
  "periodGroups tza qs = foldl (\<lambda>groups q. group_push (getPeriodKey tza (createdAt q)) q groups) [] qs"

definition Object_keys :: "(jsstring \<times> 'v) list \<Rightarrow> jsstring list" where
  "Object_keys obj = map fst obj"

text \<open>
  The regular expression \<^verbatim>\<open>/(\d+)\<close>\<open>nian\<close>\<^verbatim>\<open>(\d+)\<close>\<open>yue\<close>\<^verbatim>\<open>(.+)/\<close>. Each \<^verbatim>\<open>\d+\<close> is followed
  by a character that is no digit, so only its longest run of digits can lead to a
  match; \<^verbatim>\<open>.+\<close> takes the longest run of characters that are no line terminators.
  \<open>regex_at\<close> tries the expression at the start of a string and \<open>regex_match\<close> at
  each position from the left, as \<^verbatim>\<open>String.prototype.match\<close> does, and returns the
  three groups.
\<close>

definition is_line_terminator :: "code_unit \<Rightarrow> bool" where
  "is_line_terminator c \<longleftrightarrow> c = 0x0A \<or> c = 0x0D \<or> c = 0x2028 \<or> c = 0x2029"

definition regex_at :: "jsstring \<Rightarrow> (jsstring \<times> jsstring \<times> jsstring) option" where
  "regex_at s =
     (let g1 = takeWhile is_digit s; r1 = dropWhile is_digit s
      in if g1 = [] then None
         else (case r1 of [] \<Rightarrow> None
               | c1 # r2 \<Rightarrow>
                   if c1 \<noteq> nian then None
                   else
                     (let g2 = takeWhile is_digit r2; r3 = dropWhile is_digit r2
                      in if g2 = [] then None
                         else (case r3 of [] \<Rightarrow> None
                               | c2 # r4 \<Rightarrow>
                                   if c2 \<noteq> yue then None
                                   else
                                     (let g3 = takeWhile (\<lambda>c. \<not> is_line_terminator c) r4
                                      in if g3 = [] then None else Some (g1, g2, g3))))))"

fun regex_match :: "jsstring \<Rightarrow> (jsstring \<times> jsstring \<times> jsstring) option" where
  "regex_match [] = regex_at []"
| "regex_match (c # cs) =
     (case regex_at (c # cs) of Some groups \<Rightarrow> Some groups | None \<Rightarrow> regex_match cs)"

text \<open>\<^verbatim>\<open>parseInt\<close> on a string of decimal digits, which is what a group \<^verbatim>\<open>\d+\<close> holds.\<close>

definition parseInt :: "jsstring \<Rightarrow> int" where
  "parseInt ds = foldl (\<lambda>acc c. 10 * acc + (int (unat c) - 48)) 0 ds"

definition parse :: "jsstring \<Rightarrow> int" where
  "parse k =
     (case regex_match k of
        None \<Rightarrow> 0
      | Some (p1, p2, p3) \<Rightarrow>
          (let y = parseInt p1;
               m = parseInt p2;
               p = (if p3 = shang_ban_yue then 0 else 1)
           in y * 1000 + m * 10 + p))"

definition periods :: "(int \<Rightarrow> int) \<Rightarrow> Question list \<Rightarrow> jsstring list" where
  "periods tza qs =
     fst (Array_sort (\<lambda>s a b. (0 < parse b - parse a, s)) (Object_keys (periodGroups tza qs)) ())"

section \<open>Sample data\<close>

definition sample_question :: "jsstring \<Rightarrow> MasteryStatus option \<Rightarrow> int \<Rightarrow> int \<Rightarrow> Question" where
  "sample_question i m t c =
     \<lparr>idQ = i, imageUrl = ascii ''data:image/png;base64,AAAA'', subject = ZhiCe,
      category = YanYu, subCategory = [], questionText = ascii ''Image Question'',
      aiAnalysis = [], myThinking = [], correctResolution = [], rootCause = Some [],
      masteryStatus = m, createdAt = t, reviewCount = c, lastReviewedAt = None\<rparr>"

definition utc :: "int \<Rightarrow> int" where
  "utc t = 0"

definition sample_app :: App where
  "sample_app =
     \<lparr>activeTab = review,
      questions = [sample_question (ascii ''1002'') (Some review_needed) 1736035200000 0,
                   sample_question (ascii ''1001'') None 1734652800000 2,
                   sample_question (ascii ''1000'') (Some review_needed) 1710504000000 0],
      storage = None\<rparr>"

definition sample_review :: ReviewMode where
  "sample_review =
     \<lparr>mode = exam_mode, examQuestions = questions sample_app, currentExamIndex = 0,
      showAnswer = True, examTitle = title_random, filterMode = priority\<rparr>"

definition sample_form :: "jsstring \<Rightarrow> AddQuestion" where
  "sample_form img =
     \<lparr>image = Some img, form_subject = ZhiCe, form_category = YanYu, form_subCategory = [],
      form_aiAnalysis = [], form_myThinking = [], form_correctResolution = [],
      form_rootCause = [], tempMastery = null_status\<rparr>"

definition empty_app :: App where
  "empty_app = \<lparr>activeTab = add, questions = [], storage = None\<rparr>"



section \<open>Decimal numerals\<close>

lemma unat_digit_char: "d < 10 \<Longrightarrow> unat (digit_char d) = 48 + d"
proof -
  assume d: "d < 10"
  have "unat (word_of_nat (48 + d) :: 16 word) = (48 + d) mod 2 ^ LENGTH(16)"
    by (rule unat_of_nat)
  also have "\<dots> = 48 + d" using d by simp
  finally show ?thesis by (simp only: digit_char_def)
qed

lemma digit_value: "d < 10 \<Longrightarrow> int (unat (digit_char d)) - 48 = int d"
  by (simp only: unat_digit_char)

lemma is_digit_digit_char: "d < 10 \<Longrightarrow> is_digit (digit_char d)"
proof -
  assume d: "d < 10"
  have "unat (digit_char d) = 48 + d" using d by (rule unat_digit_char)
  then have "48 \<le> unat (digit_char d) \<and> unat (digit_char d) \<le> 57" using d by simp
  then show ?thesis
    by (simp add: is_digit_def word_le_nat_alt)
qed

lemma digits_all_digit: "c \<in> set (digits n) \<Longrightarrow> is_digit c"
proof (induction n arbitrary: c rule: digits.induct)
  case (1 n)
  show ?case
  proof (cases "n < 10")
    case True
    with "1.prems" show ?thesis by (simp add: digits.simps [of n] is_digit_digit_char)
  next
    case False
    with "1.prems" have "c \<in> set (digits (n div 10)) \<or> c = digit_char (n mod 10)"
      by (auto simp: digits.simps [of n])
    then show ?thesis
      using "1.IH" False by (auto simp: is_digit_digit_char)
  qed
qed

lemma digits_nonempty: "digits n \<noteq> []"
  by (simp add: digits.simps [of n])

lemma parseInt_snoc: "parseInt (ds @ [c]) = 10 * parseInt ds + (int (unat c) - 48)"
  by (simp add: parseInt_def del: of_nat_unat)

lemma parseInt_digits: "parseInt (digits n) = int n"
proof (induction n rule: digits.induct)
  case (1 n)
  show ?case
  proof (cases "n < 10")
    case True
    then have "parseInt (digits n) = int (unat (digit_char n)) - 48"
      by (simp add: digits.simps [of n] parseInt_def del: of_nat_unat)
    with True show ?thesis by (simp only: digit_value)
  next
    case False
    have "parseInt (digits n) = 10 * parseInt (digits (n div 10)) + (int (unat (digit_char (n mod 10))) - 48)"
      using False by (simp only: digits.simps [of n] parseInt_snoc if_False)
    also have "\<dots> = 10 * int (n div 10) + int (n mod 10)"
      using "1.IH" False by (simp only: digit_value [of "n mod 10"]) simp
    also have "\<dots> = int n" by (simp add: zdiv_int zmod_int)
    finally show ?thesis .
  qed
qed

lemma digits_inject: "digits a = digits b \<Longrightarrow> a = b"
proof -
  assume "digits a = digits b"
  then have "parseInt (digits a) = parseInt (digits b)" by simp
  then show "a = b" by (simp add: parseInt_digits)
qed

lemma minus_not_digit: "\<not> is_digit 0x2D"
  by (simp add: is_digit_def)

lemma Number_toString_inject: "Number_toString a = Number_toString b \<Longrightarrow> a = b"
proof -
  assume eq: "Number_toString a = Number_toString b"
  have hd_digit: "is_digit (hd (digits n))" for n
    using digits_all_digit [of "hd (digits n)" n] digits_nonempty [of n] by simp
  have neq: "0x2D # digits m \<noteq> digits n" for m n
  proof
    assume "0x2D # digits m = digits n"
    then have "hd (digits n) = 0x2D" by (metis list.sel(1))
    with hd_digit [of n] minus_not_digit show False by simp
  qed
  show "a = b"
  proof (cases "a < 0")
    case True
    show ?thesis
    proof (cases "b < 0")
      case True
      with \<open>a < 0\<close> eq have "digits (nat (- a)) = digits (nat (- b))"
        by (simp add: Number_toString_def)
      then have "nat (- a) = nat (- b)" by (rule digits_inject)
      with True \<open>a < 0\<close> show ?thesis by simp
    next
      case False
      with True eq neq [of "nat (- a)" "nat b"] show ?thesis
        by (simp add: Number_toString_def)
    qed
  next
    case False
    show ?thesis
    proof (cases "b < 0")
      case True
      with False eq neq [of "nat (- b)" "nat a"] show ?thesis
        by (simp add: Number_toString_def)
    next
      case nb: False
      with False eq have "digits (nat a) = digits (nat b)"
        by (simp add: Number_toString_def)
      then have "nat a = nat b" by (rule digits_inject)
      with False nb show ?thesis by simp
    qed
  qed
qed

section \<open>The shape of a period key\<close>

lemma nian_not_digit: "\<not> is_digit nian"
  by (simp add: is_digit_def nian_def)

lemma yue_not_digit: "\<not> is_digit yue"
  by (simp add: is_digit_def yue_def)

lemma Number_toString_plain: "c \<in> set (Number_toString i) \<Longrightarrow> c \<noteq> nian \<and> c \<noteq> yue"
proof -
  assume c: "c \<in> set (Number_toString i)"
  then have "c = 0x2D \<or> is_digit c"
    by (auto simp: Number_toString_def dest: digits_all_digit split: if_splits)
  then show ?thesis
    using nian_not_digit yue_not_digit by (auto simp: nian_def yue_def)
qed

lemma NaN_chars: "set (ascii ''NaN'') = {0x4E, 0x61}"
  by (auto simp: ascii_def)

lemma ToString_plain: "c \<in> set (ToString x) \<Longrightarrow> c \<noteq> nian \<and> c \<noteq> yue"
proof (cases x)
  case None
  assume "c \<in> set (ToString x)"
  with None have "c = 0x4E \<or> c = 0x61" by (simp add: ToString_def NaN_chars)
  then show ?thesis by (auto simp: nian_def yue_def)
next
  case (Some i)
  assume "c \<in> set (ToString x)"
  with Some show ?thesis by (simp add: ToString_def Number_toString_plain)
qed

lemma NaN_not_number: "ascii ''NaN'' \<noteq> Number_toString i"
proof
  assume eq: "ascii ''NaN'' = Number_toString i"
  have "hd (Number_toString i) = 0x2D \<or> is_digit (hd (Number_toString i))"
    using digits_all_digit [of "hd (digits (nat i))" "nat i"] digits_nonempty [of "nat i"]
    by (simp add: Number_toString_def)
  moreover have "hd (ascii ''NaN'') = (0x4E :: code_unit)" by (simp add: ascii_def)
  ultimately show False using eq by (simp add: is_digit_def)
qed

lemma ToString_inject: "ToString x = ToString y \<Longrightarrow> x = y"
  using NaN_not_number Number_toString_inject
  by (cases x; cases y) (auto simp: ToString_def dest: sym)

lemma halves_differ: "shang_ban_yue \<noteq> xia_ban_yue"
  by (simp add: shang_ban_yue_def xia_ban_yue_def)

lemma split_at_mark:
  "c \<notin> set xs \<Longrightarrow> c \<notin> set ys \<Longrightarrow> xs @ c # r = ys @ c # r' \<Longrightarrow> xs = ys \<and> r = r'"
proof (induction xs arbitrary: ys)
  case Nil
  then show ?case by (cases ys) auto
next
  case (Cons x xs)
  then show ?case by (cases ys) auto
qed

lemma key_inject:
  assumes "ToString y1 @ [nian] @ ToString m1 @ [yue] @ p1 = ToString y2 @ [nian] @ ToString m2 @ [yue] @ p2"
  shows "y1 = y2 \<and> m1 = m2 \<and> p1 = p2"
proof -
  have n1: "nian \<notin> set (ToString y1)" and n2: "nian \<notin> set (ToString y2)"
    using ToString_plain by blast+
  from assms have "ToString y1 @ nian # (ToString m1 @ [yue] @ p1) = ToString y2 @ nian # (ToString m2 @ [yue] @ p2)"
    by simp
  with n1 n2 have "ToString y1 = ToString y2 \<and> ToString m1 @ [yue] @ p1 = ToString m2 @ [yue] @ p2"
    by (rule split_at_mark)
  then have a: "ToString y1 = ToString y2" and r: "ToString m1 @ yue # p1 = ToString m2 @ yue # p2"
    by simp_all
  have u1: "yue \<notin> set (ToString m1)" and u2: "yue \<notin> set (ToString m2)"
    using ToString_plain by blast+
  from u1 u2 r have "ToString m1 = ToString m2 \<and> p1 = p2"
    by (rule split_at_mark)
  with a show ?thesis by (simp add: ToString_inject)
qed

lemma key_eq_iff:
  "ToString y1 @ [nian] @ ToString m1 @ [yue] @ p1 = ToString y2 @ [nian] @ ToString m2 @ [yue] @ p2
     \<longleftrightarrow> y1 = y2 \<and> m1 = m2 \<and> p1 = p2"
proof
  assume "ToString y1 @ [nian] @ ToString m1 @ [yue] @ p1 = ToString y2 @ [nian] @ ToString m2 @ [yue] @ p2"
  then show "y1 = y2 \<and> m1 = m2 \<and> p1 = p2" by (rule key_inject)
next
  assume "y1 = y2 \<and> m1 = m2 \<and> p1 = p2"
  then show "ToString y1 @ [nian] @ ToString m1 @ [yue] @ p1 = ToString y2 @ [nian] @ ToString m2 @ [yue] @ p2"
    by simp
qed

lemma succ_month_eq: "map_option (\<lambda>m. m + 1) a = map_option (\<lambda>m. m + (1::int)) b \<longleftrightarrow> a = b"
  by (cases a; cases b) simp_all

lemma part_eq: "(if a then shang_ban_yue else xia_ban_yue) = (if b then shang_ban_yue else xia_ban_yue) \<longleftrightarrow> (a \<longleftrightarrow> b)"
  using halves_differ by (cases a; cases b) auto

lemma getPeriodKey_eq_iff:
  "getPeriodKey tza t1 = getPeriodKey tza t2 \<longleftrightarrow>
      getFullYear tza (new_Date t1) = getFullYear tza (new_Date t2)
      \<and> getMonth tza (new_Date t1) = getMonth tza (new_Date t2)
      \<and> (first_half (getDate tza (new_Date t1)) \<longleftrightarrow> first_half (getDate tza (new_Date t2)))"
  unfolding getPeriodKey_def Let_def key_eq_iff succ_month_eq part_eq ..


section \<open>Reading a period key back\<close>

lemma span_digits:
  assumes "\<not> is_digit c"
  shows "takeWhile is_digit (digits a @ c # r) = digits a"
    and "dropWhile is_digit (digits a @ c # r) = c # r"
proof -
  have all: "\<And>x. x \<in> set (digits a) \<Longrightarrow> is_digit x" by (rule digits_all_digit)
  show "takeWhile is_digit (digits a @ c # r) = digits a"
    using all assms by (simp add: takeWhile_append2)
  show "dropWhile is_digit (digits a @ c # r) = c # r"
    using all assms by (simp add: dropWhile_append2)
qed

lemma part_no_terminator:
  "takeWhile (\<lambda>c. \<not> is_line_terminator c) shang_ban_yue = shang_ban_yue"
  "takeWhile (\<lambda>c. \<not> is_line_terminator c) xia_ban_yue = xia_ban_yue"
  by (simp_all add: shang_ban_yue_def xia_ban_yue_def is_line_terminator_def)

lemma regex_at_key:
  assumes "p = shang_ban_yue \<or> p = xia_ban_yue"
  shows "regex_at (digits a @ [nian] @ digits b @ [yue] @ p) = Some (digits a, digits b, p)"
proof -
  have t1: "takeWhile is_digit (digits a @ nian # digits b @ yue # p) = digits a"
    and d1: "dropWhile is_digit (digits a @ nian # digits b @ yue # p) = nian # digits b @ yue # p"
    using span_digits [OF nian_not_digit] by blast+
  have t2: "takeWhile is_digit (digits b @ yue # p) = digits b"
    and d2: "dropWhile is_digit (digits b @ yue # p) = yue # p"
    using span_digits [OF yue_not_digit] by blast+
  have t3: "takeWhile (\<lambda>c. \<not> is_line_terminator c) p = p"
    using assms part_no_terminator by auto
  have ne: "p \<noteq> []" using assms by (auto simp: shang_ban_yue_def xia_ban_yue_def)
  show ?thesis
    by (simp add: regex_at_def Let_def t1 d1 t2 d2 t3 ne digits_nonempty)
qed

lemma regex_match_hit: "regex_at s = Some g \<Longrightarrow> regex_match s = Some g"
  by (cases s) simp_all

lemma regex_match_minus: "regex_match (0x2D # s) = regex_match s"
proof -
  have "regex_at (0x2D # s) = None"
    using minus_not_digit by (simp add: regex_at_def)
  then show ?thesis by simp
qed

lemma parse_key:
  assumes "p = shang_ban_yue \<or> p = xia_ban_yue"
  shows "parse (digits a @ [nian] @ digits b @ [yue] @ p)
           = int a * 1000 + int b * 10 + (if p = shang_ban_yue then 0 else 1)"
  using regex_match_hit [OF regex_at_key [OF assms, of a b]]
  by (simp add: parse_def parseInt_digits)

lemma parse_minus_key:
  assumes "p = shang_ban_yue \<or> p = xia_ban_yue"
  shows "parse (0x2D # digits a @ [nian] @ digits b @ [yue] @ p)
           = int a * 1000 + int b * 10 + (if p = shang_ban_yue then 0 else 1)"
proof -
  have "regex_match (0x2D # digits a @ [nian] @ digits b @ [yue] @ p)
          = Some (digits a, digits b, p)"
    using regex_match_hit [OF regex_at_key [OF assms, of a b]]
    by (simp only: regex_match_minus)
  then show ?thesis by (simp add: parse_def parseInt_digits)
qed

lemma MonthFromTime_range: "0 \<le> MonthFromTime t \<and> MonthFromTime t \<le> 11"
  by (simp add: MonthFromTime_def Let_def)

lemma parse_getPeriodKey:
  assumes valid: "\<bar>ts\<bar> \<le> 8640000000000000"
  shows "parse (getPeriodKey tza ts)
           = \<bar>YearFromTime (LocalTime tza ts)\<bar> * 1000
             + (MonthFromTime (LocalTime tza ts) + 1) * 10
             + (if DateFromTime (LocalTime tza ts) \<le> 15 then 0 else 1)"
proof -
  let ?t = "LocalTime tza ts"
  let ?p = "if DateFromTime ?t \<le> 15 then shang_ban_yue else xia_ban_yue"
  have p: "?p = shang_ban_yue \<or> ?p = xia_ban_yue" by simp
  have pv: "(if ?p = shang_ban_yue then 0 else 1) = (if DateFromTime ?t \<le> 15 then 0 else (1::int))"
    using halves_differ by auto
  have m: "Number_toString (MonthFromTime ?t + 1) = digits (nat (MonthFromTime ?t + 1))"
    using MonthFromTime_range [of ?t] by (simp add: Number_toString_def)
  have key: "getPeriodKey tza ts
      = Number_toString (YearFromTime ?t) @ [nian] @ digits (nat (MonthFromTime ?t + 1)) @ [yue] @ ?p"
    using valid
    by (simp add: getPeriodKey_def new_Date_def getFullYear_def getMonth_def getDate_def
        ToString_def first_half_def m Let_def)
  have mm: "int (nat (MonthFromTime ?t + 1)) = MonthFromTime ?t + 1"
    using MonthFromTime_range [of ?t] by simp
  show ?thesis
  proof (cases "YearFromTime ?t < 0")
    case True
    then have "getPeriodKey tza ts
        = 0x2D # digits (nat (- YearFromTime ?t)) @ [nian] @ digits (nat (MonthFromTime ?t + 1)) @ [yue] @ ?p"
      by (simp add: key Number_toString_def)
    then have "parse (getPeriodKey tza ts)
        = int (nat (- YearFromTime ?t)) * 1000 + int (nat (MonthFromTime ?t + 1)) * 10
          + (if ?p = shang_ban_yue then 0 else 1)"
      using parse_minus_key [OF p] by simp
    with True MonthFromTime_range [of ?t] show ?thesis by (simp add: pv)
  next
    case False
    then have "getPeriodKey tza ts
        = digits (nat (YearFromTime ?t)) @ [nian] @ digits (nat (MonthFromTime ?t + 1)) @ [yue] @ ?p"
      by (simp add: key Number_toString_def)
    then have "parse (getPeriodKey tza ts)
        = int (nat (YearFromTime ?t)) * 1000 + int (nat (MonthFromTime ?t + 1)) * 10
          + (if ?p = shang_ban_yue then 0 else 1)"
      using parse_key [OF p] by simp
    with False MonthFromTime_range [of ?t] show ?thesis by (simp add: pv)
  qed
qed

section \<open>The sort of the host keeps the elements\<close>

lemma mset_insert_by: "mset (fst (insert_by gt x ys s)) = add_mset x (mset ys)"
proof (induction ys arbitrary: s)
  case Nil
  then show ?case by simp
next
  case (Cons y ys)
  obtain b s' where g: "gt s y x = (b, s')" by (cases "gt s y x")
  obtain zs s'' where r: "insert_by gt x ys s' = (zs, s'')" by (cases "insert_by gt x ys s'")
  have "mset zs = add_mset x (mset ys)" using Cons.IH [of s'] r by simp
  with g r show ?case by simp
qed

lemma mset_sort_by: "mset (fst (sort_by gt xs placed s)) = mset xs + mset placed"
proof (induction xs arbitrary: placed s)
  case Nil
  then show ?case by simp
next
  case (Cons x xs)
  obtain p s' where ins: "insert_by gt x placed s = (p, s')"
    by (cases "insert_by gt x placed s")
  have "mset p = add_mset x (mset placed)"
    using mset_insert_by [of gt x placed s] ins by simp
  with Cons.IH [of p s'] ins show ?case by simp
qed

lemma mset_Array_sort: "mset (fst (Array_sort gt xs s)) = mset xs"
  by (simp add: Array_sort_def mset_sort_by)

lemma mset_shuffle: "mset (shuffle random pool) = mset pool"
  by (simp add: shuffle_def mset_Array_sort)

lemma set_shuffle: "set (shuffle random pool) = set pool"
  using mset_shuffle [of random pool] by (metis set_mset_mset)

lemma length_shuffle: "length (shuffle random pool) = length pool"
  using mset_shuffle [of random pool] by (metis size_mset)


section \<open>The groups of the periods\<close>

lemma group_push_map_fst:
  "map fst (group_push key q gs)
     = (if key \<in> set (map fst gs) then map fst gs else map fst gs @ [key])"
proof (induction gs)
  case Nil
  then show ?case by simp
next
  case (Cons a gs)
  obtain k0 g0 where a: "a = (k0, g0)" by (cases a)
  show ?case
  proof (cases "k0 = key")
    case True
    with a show ?thesis by simp
  next
    case False
    then have "key \<in> set (map fst (a # gs)) \<longleftrightarrow> key \<in> set (map fst gs)"
      using a by auto
    with False a Cons.IH show ?thesis by simp
  qed
qed

lemma group_push_keys: "set (map fst (group_push key q gs)) = insert key (set (map fst gs))"
  by (simp only: group_push_map_fst) auto

lemma group_push_distinct:
  "distinct (map fst gs) \<Longrightarrow> distinct (map fst (group_push key q gs))"
  by (simp only: group_push_map_fst) simp

lemma group_push_cases:
  "distinct (map fst gs) \<Longrightarrow> (k, g) \<in> set (group_push key q gs) \<Longrightarrow>
     (k = key \<and> (g = [q] \<and> key \<notin> set (map fst gs) \<or> (\<exists>g0. (key, g0) \<in> set gs \<and> g = g0 @ [q])))
     \<or> (k \<noteq> key \<and> (k, g) \<in> set gs)"
proof (induction gs)
  case Nil
  then show ?case by simp
next
  case (Cons a gs)
  obtain k0 g0 where a: "a = (k0, g0)" by (cases a)
  from Cons.prems(1) a have fresh: "k0 \<notin> set (map fst gs)" and d: "distinct (map fst gs)"
    by simp_all
  show ?case
  proof (cases "k0 = key")
    case True
    with Cons.prems a have "(k, g) = (key, g0 @ [q]) \<or> (k, g) \<in> set gs" by simp
    then show ?thesis
    proof
      assume "(k, g) = (key, g0 @ [q])"
      with a True show ?thesis by auto
    next
      assume mem: "(k, g) \<in> set gs"
      then have "k \<in> set (map fst gs)" by force
      with fresh True have "k \<noteq> key" by blast
      with mem show ?thesis by simp
    qed
  next
    case False
    with Cons.prems a have "(k, g) = (k0, g0) \<or> (k, g) \<in> set (group_push key q gs)" by simp
    then show ?thesis
    proof
      assume "(k, g) = (k0, g0)"
      with a False show ?thesis by auto
    next
      assume "(k, g) \<in> set (group_push key q gs)"
      from Cons.IH [OF d this] a False show ?thesis by auto
    qed
  qed
qed

lemma periodGroups_snoc:
  "periodGroups tza (qs @ [q]) = group_push (getPeriodKey tza (createdAt q)) q (periodGroups tza qs)"
  by (simp add: periodGroups_def)

lemma periodGroups_keys:
  "set (map fst (periodGroups tza qs)) = (\<lambda>q. getPeriodKey tza (createdAt q)) ` set qs"
proof (induction qs rule: rev_induct)
  case Nil
  then show ?case by (simp add: periodGroups_def)
next
  case (snoc q qs)
  have "set (map fst (periodGroups tza (qs @ [q])))
      = insert (getPeriodKey tza (createdAt q)) (set (map fst (periodGroups tza qs)))"
    by (simp only: periodGroups_snoc group_push_keys)
  with snoc show ?case by simp
qed

lemma periodGroups_distinct: "distinct (map fst (periodGroups tza qs))"
proof (induction qs rule: rev_induct)
  case Nil
  then show ?case by (simp add: periodGroups_def)
next
  case (snoc q qs)
  then show ?case by (simp only: periodGroups_snoc group_push_distinct)
qed

lemma periodGroups_group:
  "(k, g) \<in> set (periodGroups tza qs) \<Longrightarrow>
     g = filter (\<lambda>q. getPeriodKey tza (createdAt q) = k) qs \<and> g \<noteq> []"
proof (induction qs arbitrary: k g rule: rev_induct)
  case Nil
  then show ?case by (simp add: periodGroups_def)
next
  case (snoc q qs)
  let ?key = "getPeriodKey tza (createdAt q)"
  from snoc.prems have mem: "(k, g) \<in> set (group_push ?key q (periodGroups tza qs))"
    by (simp add: periodGroups_snoc)
  from group_push_cases [OF periodGroups_distinct mem]
  consider (fresh) "k = ?key" "g = [q]" "?key \<notin> set (map fst (periodGroups tza qs))"
    | (grown) g0 where "k = ?key" "(?key, g0) \<in> set (periodGroups tza qs)" "g = g0 @ [q]"
    | (other) "k \<noteq> ?key" "(k, g) \<in> set (periodGroups tza qs)"
    by blast
  then show ?case
  proof cases
    case fresh
    have "getPeriodKey tza (createdAt x) \<noteq> ?key" if "x \<in> set qs" for x
    proof
      assume "getPeriodKey tza (createdAt x) = ?key"
      with that have "?key \<in> (\<lambda>q. getPeriodKey tza (createdAt q)) ` set qs"
        by (metis (mono_tags, lifting) image_eqI)
      with fresh(3) show False unfolding periodGroups_keys by simp
    qed
    then have "filter (\<lambda>x. getPeriodKey tza (createdAt x) = ?key) qs = []"
      by (simp add: filter_empty_conv)
    with fresh show ?thesis by simp
  next
    case grown
    from snoc.IH [OF grown(2)] grown show ?thesis by simp
  next
    case other
    from snoc.IH [OF other(2)] other show ?thesis by auto
  qed
qed

section \<open>The order of the periods\<close>

lemma set_insert_by: "set (fst (insert_by gt x ys s)) = insert x (set ys)"
  using mset_insert_by [of gt x ys s] by (metis set_mset_mset set_mset_add_mset_insert)

lemma sorted_insert_by:
  fixes f :: "'a \<Rightarrow> int"
  assumes "sorted_wrt (\<lambda>a b. f b \<le> f a) ys"
  shows "sorted_wrt (\<lambda>a b. f b \<le> f a) (fst (insert_by (\<lambda>s a b. (0 < f b - f a, s)) x ys s))"
  using assms
proof (induction ys)
  case Nil
  then show ?case by simp
next
  case (Cons y ys)
  let ?gt = "\<lambda>s a b. (0 < f b - f a, s)"
  show ?case
  proof (cases "0 < f x - f y")
    case True
    with Cons.prems show ?thesis by auto
  next
    case False
    obtain zs s'' where r: "insert_by ?gt x ys s = (zs, s'')" by (cases "insert_by ?gt x ys s")
    have "set zs = insert x (set ys)" using set_insert_by [of ?gt x ys s] r by simp
    moreover have "sorted_wrt (\<lambda>a b. f b \<le> f a) zs" using Cons r by simp
    ultimately show ?thesis using False Cons.prems r by auto
  qed
qed

lemma sorted_sort_by:
  fixes f :: "'a \<Rightarrow> int"
  assumes "sorted_wrt (\<lambda>a b. f b \<le> f a) placed"
  shows "sorted_wrt (\<lambda>a b. f b \<le> f a) (fst (sort_by (\<lambda>s a b. (0 < f b - f a, s)) xs placed s))"
  using assms
proof (induction xs arbitrary: placed s)
  case Nil
  then show ?case by simp
next
  case (Cons x xs)
  let ?gt = "\<lambda>s a b. (0 < f b - f a, s)"
  obtain p s' where ins: "insert_by ?gt x placed s = (p, s')" by (cases "insert_by ?gt x placed s")
  have "sorted_wrt (\<lambda>a b. f b \<le> f a) p"
    using sorted_insert_by [OF Cons.prems, of x s] ins by simp
  from Cons.IH [OF this, of s'] ins show ?case by simp
qed

lemma sorted_periods: "sorted_wrt (\<lambda>a b. parse b \<le> parse a) (periods tza qs)"
  unfolding periods_def Array_sort_def by (rule sorted_sort_by) simp

lemma mset_periods: "mset (periods tza qs) = mset (Object_keys (periodGroups tza qs))"
  by (simp add: periods_def mset_Array_sort)

lemma set_periods: "set (periods tza qs) = (\<lambda>q. getPeriodKey tza (createdAt q)) ` set qs"
proof -
  have "set (periods tza qs) = set (Object_keys (periodGroups tza qs))"
    using mset_periods [of tza qs] by (metis set_mset_mset)
  then show ?thesis by (simp only: Object_keys_def periodGroups_keys)
qed

lemma distinct_periods: "distinct (periods tza qs)"
proof -
  have "distinct (Object_keys (periodGroups tza qs))"
    by (simp add: Object_keys_def periodGroups_distinct)
  then show ?thesis using mset_eq_imp_distinct_iff [OF mset_periods [of tza qs]] by simp
qed

lemma parse_getPeriodKey_nonneg:
  assumes "\<bar>ts\<bar> \<le> 8640000000000000" and "0 \<le> YearFromTime (LocalTime tza ts)"
  shows "parse (getPeriodKey tza ts)
           = YearFromTime (LocalTime tza ts) * 1000
             + (MonthFromTime (LocalTime tza ts) + 1) * 10
             + (if DateFromTime (LocalTime tza ts) \<le> 15 then 0 else 1)"
  using parse_getPeriodKey [OF assms(1), of tza] assms(2) by simp

lemma value_order:
  fixes y1 y2 m1 m2 h1 h2 :: int
  assumes "0 \<le> m1" "m1 \<le> 11" "0 \<le> m2" "m2 \<le> 11" "h1 = 0 \<or> h1 = 1" "h2 = 0 \<or> h2 = 1"
  shows "y1 * 1000 + (m1 + 1) * 10 + h1 < y2 * 1000 + (m2 + 1) * 10 + h2
           \<longleftrightarrow> y1 < y2 \<or> (y1 = y2 \<and> (m1 < m2 \<or> (m1 = m2 \<and> h1 < h2)))"
  using assms by auto

lemma sample_fields:
  "YearFromTime (LocalTime utc 1734652800000) = 2024"
  "MonthFromTime (LocalTime utc 1734652800000) = 11"
  "DateFromTime (LocalTime utc 1734652800000) = 20"
  "YearFromTime (LocalTime utc 1736035200000) = 2025"
  "MonthFromTime (LocalTime utc 1736035200000) = 0"
  "DateFromTime (LocalTime utc 1736035200000) = 5"
  by code_simp+

section \<open>The ids of saved questions\<close>

lemma handleSave_questions:
  "questions (handleSave stringify t c form app)
     = (case image form of None \<Rightarrow> questions app
        | Some img \<Rightarrow> if img = [] then questions app
            else \<lparr>idQ = Number_toString t, imageUrl = img, subject = form_subject form,
                  category = form_category form, subCategory = form_subCategory form,
                  questionText = ascii ''Image Question'', aiAnalysis = form_aiAnalysis form,
                  myThinking = form_myThinking form,
                  correctResolution = form_correctResolution form,
                  rootCause = Some (form_rootCause form),
                  masteryStatus = Some (tempMastery form), createdAt = c,
                  reviewCount = 0, lastReviewedAt = None\<rparr> # questions app)"
  by (simp add: handleSave_def handleSaveQuestion_def saveQuestions_def Let_def split: option.splits)

lemma handleSave_ids:
  "map idQ (questions (handleSave stringify t c form app)) = map idQ (questions app)
   \<or> map idQ (questions (handleSave stringify t c form app)) = Number_toString t # map idQ (questions app)"
  by (simp add: handleSave_questions split: option.splits)

lemma grown_set: "ys = xs \<or> ys = n # xs \<Longrightarrow> set ys \<subseteq> insert n (set xs)"
  by auto

lemma grown_distinct: "ys = xs \<or> ys = n # xs \<Longrightarrow> distinct xs \<Longrightarrow> n \<notin> set xs \<Longrightarrow> distinct ys"
  by auto

lemma saves_distinct:
  assumes "distinct (map idQ (questions app))"
    and "distinct (map fst evs)"
    and "\<forall>t \<in> set (map fst evs). Number_toString t \<notin> set (map idQ (questions app))"
  shows "distinct (map idQ (questions (saves stringify evs app)))"
  using assms
proof (induction evs arbitrary: app)
  case Nil
  then show ?case by simp
next
  case (Cons ev evs)
  obtain t c form where ev: "ev = (t, c, form)" by (cases ev)
  let ?app' = "handleSave stringify t c form app"
  from Cons.prems ev have fresh: "Number_toString t \<notin> set (map idQ (questions app))"
    and tnew: "t \<notin> set (map fst evs)" and d: "distinct (map fst evs)"
    and rest: "\<forall>u \<in> set (map fst evs). Number_toString u \<notin> set (map idQ (questions app))"
    by simp_all
  have ids: "set (map idQ (questions ?app')) \<subseteq> insert (Number_toString t) (set (map idQ (questions app)))"
    using handleSave_ids [of stringify t c form app] by (rule grown_set)
  have d': "distinct (map idQ (questions ?app'))"
    using handleSave_ids [of stringify t c form app] Cons.prems(1) fresh by (rule grown_distinct)
  have rest': "\<forall>u \<in> set (map fst evs). Number_toString u \<notin> set (map idQ (questions ?app'))"
  proof
    fix u assume u: "u \<in> set (map fst evs)"
    with tnew have "u \<noteq> t" by blast
    then have "Number_toString u \<noteq> Number_toString t"
      using Number_toString_inject by blast
    moreover from rest u have "Number_toString u \<notin> set (map idQ (questions app))" by blast
    ultimately show "Number_toString u \<notin> set (map idQ (questions ?app'))"
      using ids by blast
  qed
  from Cons.IH [OF d' d rest'] ev show ?case by simp
qed

section \<open>The mastery handler\<close>

lemma handleUpdateMastery_current:
  assumes "currentExamIndex rm = int i" and "i < length (examQuestions rm)"
  shows "handleUpdateMastery stringify q status (rm, app)
           = Some (rm\<lparr>examQuestions := (examQuestions rm)[i := setMasteryStatus q status]\<rparr>,
                   handleUpdateQuestion stringify (setMasteryStatus q status) app)"
  using assms by (simp add: handleUpdateMastery_def array_set_def Let_def)

section \<open>One step of an exam\<close>




section \<open>Claims\<close>




text \<open>
  C2. Two timestamps get the same period key exactly when they agree on the calendar
  year, on the calendar month and on the half of the month, the first half being the
  days of the month up to the 15th; in particular a timestamp on the 15th and one on
  the 16th get different keys. The fields are those of the host's date at local time,
  and an invalid date has the field \<open>None\<close> three times.
\<close>

theorem getPeriodKey_same_iff:
  "(getPeriodKey tza t1 = getPeriodKey tza t2 \<longleftrightarrow>
      getFullYear tza (new_Date t1) = getFullYear tza (new_Date t2)
      \<and> getMonth tza (new_Date t1) = getMonth tza (new_Date t2)
      \<and> (first_half (getDate tza (new_Date t1)) \<longleftrightarrow> first_half (getDate tza (new_Date t2))))
   \<and> (getDate tza (new_Date t1) = Some 15 \<and> getDate tza (new_Date t2) = Some 16
        \<longrightarrow> getPeriodKey tza t1 \<noteq> getPeriodKey tza t2)"
proof (rule conjI)
  show "getPeriodKey tza t1 = getPeriodKey tza t2 \<longleftrightarrow>
      getFullYear tza (new_Date t1) = getFullYear tza (new_Date t2)
      \<and> getMonth tza (new_Date t1) = getMonth tza (new_Date t2)
      \<and> (first_half (getDate tza (new_Date t1)) \<longleftrightarrow> first_half (getDate tza (new_Date t2)))"
    by (rule getPeriodKey_eq_iff)
next
  show "getDate tza (new_Date t1) = Some 15 \<and> getDate tza (new_Date t2) = Some 16
        \<longrightarrow> getPeriodKey tza t1 \<noteq> getPeriodKey tza t2"
  proof
    assume d: "getDate tza (new_Date t1) = Some 15 \<and> getDate tza (new_Date t2) = Some 16"
    then have "first_half (getDate tza (new_Date t1))" and "\<not> first_half (getDate tza (new_Date t2))"
      by (simp_all add: first_half_def)
    then show "getPeriodKey tza t1 \<noteq> getPeriodKey tza t2"
      by (simp only: getPeriodKey_eq_iff) simp
  qed
qed

theorem getPeriodKey_same_iff_witness:
  "getDate utc (new_Date 1710504000000) = Some 15
   \<and> getDate utc (new_Date 1710590400000) = Some 16
   \<and> getPeriodKey utc 1710504000000 \<noteq> getPeriodKey utc 1710590400000"
proof -
  have a: "getDate utc (new_Date 1710504000000) = Some 15" by code_simp
  have b: "getDate utc (new_Date 1710590400000) = Some 16" by code_simp
  from a b getPeriodKey_same_iff [of utc 1710504000000 1710590400000]
  show ?thesis by blast
qed


text \<open>
  C3. The periods presented are the period keys of the questions, each once, sorted
  descending by the value \<open>parse\<close> reads from a key. For the key of a valid
  timestamp in a year from 0 on, that value is \<open>year * 1000 + month * 10 + half\<close>
  with the month counted from 1 and \<open>half\<close> 0 for the first half and 1 for the
  second, so between two such keys the year decides first, then the month, then the
  half. (Before year 0 the expression reads the digits of the year without its sign,
  lemma \<open>parse_getPeriodKey\<close>.) The witness sorts the first half of January 2025
  before the second half of December 2024.
\<close>

theorem periods_sorted_descending:
  "sorted_wrt (\<lambda>a b. parse b \<le> parse a) (periods tza qs)
   \<and> mset (periods tza qs) = mset (Object_keys (periodGroups tza qs))
   \<and> distinct (periods tza qs)
   \<and> set (periods tza qs) = (\<lambda>q. getPeriodKey tza (createdAt q)) ` set qs
   \<and> (\<bar>t1\<bar> \<le> 8640000000000000 \<and> 0 \<le> YearFromTime (LocalTime tza t1) \<longrightarrow>
        parse (getPeriodKey tza t1)
          = YearFromTime (LocalTime tza t1) * 1000
            + (MonthFromTime (LocalTime tza t1) + 1) * 10
            + (if DateFromTime (LocalTime tza t1) \<le> 15 then 0 else 1))
   \<and> (\<bar>t1\<bar> \<le> 8640000000000000 \<and> 0 \<le> YearFromTime (LocalTime tza t1)
        \<and> \<bar>t2\<bar> \<le> 8640000000000000 \<and> 0 \<le> YearFromTime (LocalTime tza t2) \<longrightarrow>
        (parse (getPeriodKey tza t1) < parse (getPeriodKey tza t2)
           \<longleftrightarrow> YearFromTime (LocalTime tza t1) < YearFromTime (LocalTime tza t2)
               \<or> (YearFromTime (LocalTime tza t1) = YearFromTime (LocalTime tza t2)
                   \<and> (MonthFromTime (LocalTime tza t1) < MonthFromTime (LocalTime tza t2)
                       \<or> (MonthFromTime (LocalTime tza t1) = MonthFromTime (LocalTime tza t2)
                           \<and> DateFromTime (LocalTime tza t1) \<le> 15
                           \<and> \<not> DateFromTime (LocalTime tza t2) \<le> 15)))))"
proof -
  let ?Y = "\<lambda>t. YearFromTime (LocalTime tza t)"
  let ?M = "\<lambda>t. MonthFromTime (LocalTime tza t)"
  let ?H = "\<lambda>t. if DateFromTime (LocalTime tza t) \<le> 15 then 0 else (1::int)"
  have formula: "parse (getPeriodKey tza t) = ?Y t * 1000 + (?M t + 1) * 10 + ?H t"
    if "\<bar>t\<bar> \<le> 8640000000000000" "0 \<le> ?Y t" for t
    using that by (rule parse_getPeriodKey_nonneg)
  have order: "parse (getPeriodKey tza t1) < parse (getPeriodKey tza t2)
           \<longleftrightarrow> ?Y t1 < ?Y t2 \<or> (?Y t1 = ?Y t2 \<and> (?M t1 < ?M t2 \<or> (?M t1 = ?M t2
                  \<and> DateFromTime (LocalTime tza t1) \<le> 15 \<and> \<not> DateFromTime (LocalTime tza t2) \<le> 15)))"
    if v: "\<bar>t1\<bar> \<le> 8640000000000000" "0 \<le> ?Y t1" "\<bar>t2\<bar> \<le> 8640000000000000" "0 \<le> ?Y t2"
  proof -
    have "?Y t1 * 1000 + (?M t1 + 1) * 10 + ?H t1 < ?Y t2 * 1000 + (?M t2 + 1) * 10 + ?H t2
           \<longleftrightarrow> ?Y t1 < ?Y t2 \<or> (?Y t1 = ?Y t2 \<and> (?M t1 < ?M t2 \<or> (?M t1 = ?M t2 \<and> ?H t1 < ?H t2)))"
      using MonthFromTime_range [of "LocalTime tza t1"] MonthFromTime_range [of "LocalTime tza t2"]
      by (intro value_order) auto
    moreover have "?H t1 < ?H t2 \<longleftrightarrow> DateFromTime (LocalTime tza t1) \<le> 15 \<and> \<not> DateFromTime (LocalTime tza t2) \<le> 15"
      by simp
    ultimately show ?thesis
      using formula [OF v(1,2)] formula [OF v(3,4)] by simp
  qed
  from sorted_periods [of tza qs] mset_periods [of tza qs] distinct_periods [of tza qs]
    set_periods [of tza qs] formula [of t1] order
  show ?thesis by blast
qed

theorem periods_sorted_descending_witness:
  "\<bar>1734652800000\<bar> \<le> (8640000000000000 :: int)
   \<and> 0 \<le> YearFromTime (LocalTime utc 1734652800000)
   \<and> \<bar>1736035200000\<bar> \<le> (8640000000000000 :: int)
   \<and> 0 \<le> YearFromTime (LocalTime utc 1736035200000)
   \<and> parse (getPeriodKey utc 1734652800000) = 2024121
   \<and> parse (getPeriodKey utc 1736035200000) = 2025010
   \<and> parse (getPeriodKey utc 1734652800000) < parse (getPeriodKey utc 1736035200000)
   \<and> periods utc [sample_question (ascii ''1001'') None 1734652800000 0,
                   sample_question (ascii ''1002'') None 1736035200000 0]
       = [getPeriodKey utc 1736035200000, getPeriodKey utc 1734652800000]"
proof -
  let ?k1 = "getPeriodKey utc 1734652800000" and ?k2 = "getPeriodKey utc 1736035200000"
  have p1: "parse ?k1 = 2024121"
    using periods_sorted_descending [of utc "[]" 1734652800000 1736035200000]
    by (simp add: sample_fields)
  have p2: "parse ?k2 = 2025010"
    using periods_sorted_descending [of utc "[]" 1736035200000 1734652800000]
    by (simp add: sample_fields)
  have ne: "?k1 \<noteq> ?k2" using p1 p2 by auto
  have groups: "Object_keys (periodGroups utc [sample_question (ascii ''1001'') None 1734652800000 0,
                   sample_question (ascii ''1002'') None 1736035200000 0]) = [?k1, ?k2]"
    using ne by (simp add: Object_keys_def periodGroups_def sample_question_def)
  have run: "periods utc [sample_question (ascii ''1001'') None 1734652800000 0,
                   sample_question (ascii ''1002'') None 1736035200000 0] = [?k2, ?k1]"
    unfolding periods_def groups by (simp add: Array_sort_def p1 p2)
  from p1 p2 run show ?thesis by (simp add: sample_fields)
qed

text \<open>
  C4. With the filter on priority, \<open>startRandomExam\<close> either finds no question
  marked \<open>review_needed\<close>, raises the alert and selects nothing, or starts an exam
  whose pool holds only questions marked \<open>review_needed\<close> and is a permutation of
  the marked questions of the collection: the same multiset of questions, hence of
  ids, whatever \<^verbatim>\<open>Math.random\<close> returns.
\<close>

theorem priority_pool_permutation:
  assumes "filterMode rm = priority"
  shows "(filter (\<lambda>q. masteryStatus q = Some review_needed) qs = []
          \<and> startRandomExam random qs rm = (Some alert_no_questions, rm))
     \<or> (\<exists>rm'. startRandomExam random qs rm = (None, rm')
          \<and> examQuestions rm' \<noteq> []
          \<and> (\<forall>q \<in> set (examQuestions rm'). masteryStatus q = Some review_needed)
          \<and> mset (examQuestions rm')
               = mset (filter (\<lambda>q. masteryStatus q = Some review_needed) qs)
          \<and> mset (map idQ (examQuestions rm'))
               = mset (map idQ (filter (\<lambda>q. masteryStatus q = Some review_needed) qs)))"
proof (cases "filter (\<lambda>q. masteryStatus q = Some review_needed) qs = []")
  case True
  with assms have "startRandomExam random qs rm = (Some alert_no_questions, rm)"
    by (simp add: startRandomExam_def)
  with True show ?thesis by blast
next
  case False
  let ?pool = "filter (\<lambda>q. masteryStatus q = Some review_needed) qs"
  let ?rm' = "rm\<lparr>examQuestions := shuffle random ?pool, currentExamIndex := 0,
                 showAnswer := False, examTitle := title_priority, mode := exam_mode\<rparr>"
  have run: "startRandomExam random qs rm = (None, ?rm')"
    using assms False by (simp add: startRandomExam_def Let_def)
  have m: "mset (examQuestions ?rm') = mset ?pool"
    by (simp add: mset_shuffle)
  have ne: "examQuestions ?rm' \<noteq> []"
    using False length_shuffle [of random ?pool] by auto
  have s: "\<forall>q \<in> set (examQuestions ?rm'). masteryStatus q = Some review_needed"
    by (simp add: set_shuffle)
  have ids: "mset (map idQ (examQuestions ?rm')) = mset (map idQ ?pool)"
    using m by (metis mset_map)
  from run ne m s ids show ?thesis by blast
qed

theorem priority_pool_permutation_witness:
  "filterMode sample_review = priority
   \<and> (\<exists>rm'. startRandomExam (\<lambda>n. if even n then 1 / 4 else 3 / 4) (questions sample_app) sample_review = (None, rm')
        \<and> mset (map idQ (examQuestions rm')) = {#ascii ''1002'', ascii ''1000''#})"
proof -
  have a: "filterMode sample_review = priority" by (simp add: sample_review_def)
  have b: "filter (\<lambda>q. masteryStatus q = Some review_needed) (questions sample_app) \<noteq> []"
    by (simp add: sample_app_def sample_question_def)
  have c: "map idQ (filter (\<lambda>q. masteryStatus q = Some review_needed) (questions sample_app))
             = [ascii ''1002'', ascii ''1000'']"
    by (simp add: sample_app_def sample_question_def)
  from priority_pool_permutation [OF a, of "questions sample_app" "\<lambda>n. if even n then 1 / 4 else 3 / 4"] a b c
  show ?thesis by auto
qed

text \<open>
  C5. For every question \<open>q\<close> and every status, \<open>setMasteryStatus q status\<close> is a
  record whose \<open>masteryStatus\<close> is \<open>status\<close> and whose thirteen other fields are those
  of \<open>q\<close>; this holds for \<open>mastered\<close> and \<open>review_needed\<close> in particular.
\<close>

theorem setMasteryStatus_frame:
  "masteryStatus (setMasteryStatus q status) = Some status
   \<and> idQ (setMasteryStatus q status) = idQ q
   \<and> subject (setMasteryStatus q status) = subject q
   \<and> category (setMasteryStatus q status) = category q
   \<and> subCategory (setMasteryStatus q status) = subCategory q
   \<and> questionText (setMasteryStatus q status) = questionText q
   \<and> aiAnalysis (setMasteryStatus q status) = aiAnalysis q
   \<and> myThinking (setMasteryStatus q status) = myThinking q
   \<and> correctResolution (setMasteryStatus q status) = correctResolution q
   \<and> rootCause (setMasteryStatus q status) = rootCause q
   \<and> createdAt (setMasteryStatus q status) = createdAt q
   \<and> reviewCount (setMasteryStatus q status) = reviewCount q
   \<and> lastReviewedAt (setMasteryStatus q status) = lastReviewedAt q
   \<and> imageUrl (setMasteryStatus q status) = imageUrl q"
  by (simp add: setMasteryStatus_def)

text \<open>
  C6. When the filtered set is empty, for the filter on all questions and for the
  filter on priority, \<open>startRandomExam\<close> raises the alert and returns the state of
  the component as it was; an exam it does start has a pool that is not empty. An
  exam of a period is offered for the groups of \<open>periodGroups\<close> only, none of which
  is empty, and its pool is not empty either.
\<close>

theorem empty_pool_not_started:
  "((if filterMode rm = priority then filter (\<lambda>q. masteryStatus q = Some review_needed) qs else qs) = []
      \<longrightarrow> startRandomExam random qs rm = (Some alert_no_questions, rm))
   \<and> (\<forall>rm'. startRandomExam random qs rm = (None, rm') \<longrightarrow> examQuestions rm' \<noteq> [])
   \<and> (\<forall>(k, g) \<in> set (periodGroups tza qs).
         g \<noteq> [] \<and> examQuestions (startPeriodExam random k g rm) \<noteq> [])"
proof -
  let ?pool = "if filterMode rm = priority then filter (\<lambda>q. masteryStatus q = Some review_needed) qs else qs"
  have a: "startRandomExam random qs rm = (Some alert_no_questions, rm)" if "?pool = []"
    using that by (simp add: startRandomExam_def)
  have b: "examQuestions rm' \<noteq> []" if run: "startRandomExam random qs rm = (None, rm')" for rm'
  proof -
    have ne: "?pool \<noteq> []"
    proof
      assume "?pool = []"
      from a [OF this] run show False by simp
    qed
    then have "rm' = rm\<lparr>examQuestions := shuffle random ?pool, currentExamIndex := 0,
          showAnswer := False,
          examTitle := (if filterMode rm = priority then title_priority else title_random),
          mode := exam_mode\<rparr>"
      using run by (simp add: startRandomExam_def Let_def split: if_splits)
    then have "length (examQuestions rm') = length ?pool" by (simp add: length_shuffle)
    with ne show ?thesis by auto
  qed
  have c: "g \<noteq> [] \<and> examQuestions (startPeriodExam random k g rm) \<noteq> []"
    if "(k, g) \<in> set (periodGroups tza qs)" for k g
  proof -
    from periodGroups_group [OF that] have ne: "g \<noteq> []" by (rule conjunct2)
    have "length (examQuestions (startPeriodExam random k g rm)) = length g"
      by (simp add: startPeriodExam_def Let_def length_shuffle)
    with ne show ?thesis by auto
  qed
  from a b c show ?thesis by blast
qed

theorem empty_pool_not_started_witness:
  "(if filterMode sample_review = priority
    then filter (\<lambda>q. masteryStatus q = Some review_needed) [sample_question (ascii ''1001'') None 1734652800000 0]
    else [sample_question (ascii ''1001'') None 1734652800000 0]) = []
   \<and> startRandomExam (\<lambda>n. 1 / 4) [sample_question (ascii ''1001'') None 1734652800000 0] sample_review
       = (Some alert_no_questions, sample_review)
   \<and> (getPeriodKey utc 1734652800000, [sample_question (ascii ''1001'') None 1734652800000 0])
       \<in> set (periodGroups utc [sample_question (ascii ''1001'') None 1734652800000 0])
   \<and> examQuestions (startPeriodExam (\<lambda>n. 1 / 4) (getPeriodKey utc 1734652800000)
        [sample_question (ascii ''1001'') None 1734652800000 0] sample_review) \<noteq> []"
proof -
  let ?q = "sample_question (ascii ''1001'') None 1734652800000 0"
  have e: "(if filterMode sample_review = priority
    then filter (\<lambda>q. masteryStatus q = Some review_needed) [?q] else [?q]) = []"
    by (simp add: sample_review_def sample_question_def)
  have m: "(getPeriodKey utc 1734652800000, [?q]) \<in> set (periodGroups utc [?q])"
    by (simp add: periodGroups_def sample_question_def)
  from e m empty_pool_not_started [of sample_review "[?q]" "\<lambda>n. 1 / 4" utc]
  show ?thesis by blast
qed

text \<open>
  C7, as stated, fails on a blob that was cut off in the middle: \<^verbatim>\<open>JSON.parse\<close>
  raises \<^verbatim>\<open>SyntaxError\<close> and \<open>loadQuestions\<close> does not catch it.
\<close>

theorem loadQuestions_corrupt_counterexample:
  "JSON_parse (ascii ''[{'' @ [0x22] @ ascii ''id'' @ [0x22] @ ascii '':'') = Inl SyntaxError
   \<and> loadQuestions (Some (ascii ''[{'' @ [0x22] @ ascii ''id'' @ [0x22] @ ascii '':''))
       = Inl SyntaxError"
  by code_simp

text \<open>
  C7, amended. \<open>loadQuestions\<close> returns the empty collection when the slot is absent
  or holds the empty string. On any other blob it is \<^verbatim>\<open>JSON.parse\<close>: it returns the
  value parsed, and when the blob is no JSON text it raises the \<^verbatim>\<open>SyntaxError\<close>.
\<close>

theorem loadQuestions_cases:
  "loadQuestions None = Inr (JArray [])
   \<and> loadQuestions (Some []) = Inr (JArray [])
   \<and> (data \<noteq> [] \<longrightarrow> loadQuestions (Some data) = JSON_parse data)
   \<and> (data \<noteq> [] \<and> JSON_parse data = Inl SyntaxError
        \<longrightarrow> loadQuestions (Some data) = Inl SyntaxError)"
  by (simp add: loadQuestions_def)

theorem loadQuestions_cases_witness:
  "ascii ''[]'' \<noteq> []
   \<and> loadQuestions (Some (ascii ''[]'')) = Inr (JArray [])
   \<and> ascii ''[1,'' \<noteq> []
   \<and> JSON_parse (ascii ''[1,'') = Inl SyntaxError
   \<and> loadQuestions (Some (ascii ''[1,'')) = Inl SyntaxError"
proof -
  have a: "ascii ''[]'' \<noteq> []" and b: "ascii ''[1,'' \<noteq> []"
    by (simp_all add: ascii_def)
  have c: "JSON_parse (ascii ''[]'') = Inr (JArray [])" by code_simp
  have d: "JSON_parse (ascii ''[1,'') = Inl SyntaxError" by code_simp
  from a b c d loadQuestions_cases [of "ascii ''[]''"] loadQuestions_cases [of "ascii ''[1,''"]
  show ?thesis by simp
qed

text \<open>
  C8, as stated, fails at the first question with the answer shown: the button is
  disabled there, so a click leaves the state as it is and the answer stays shown.
\<close>

theorem previous_click_first_counterexample:
  "previous_click sample_review
     \<noteq> sample_review\<lparr>currentExamIndex := max 0 (currentExamIndex sample_review - 1),
                       showAnswer := False\<rparr>"
  by (simp add: previous_click_def previous_disabled_def sample_review_def)

text \<open>
  C8, amended. The handler of the button sets the index to \<open>max 0 (i - 1)\<close> and
  hides the answer. A click runs the handler only when the button is enabled: at a
  question \<open>i > 0\<close> it moves to \<open>i - 1\<close> with the answer hidden, and at the first
  question the button is disabled and the state stays as it is.
\<close>

theorem previous_click_steps:
  "previous_onClick rm = rm\<lparr>currentExamIndex := max 0 (currentExamIndex rm - 1), showAnswer := False\<rparr>
   \<and> (0 < currentExamIndex rm \<longrightarrow>
        previous_click rm = rm\<lparr>currentExamIndex := currentExamIndex rm - 1, showAnswer := False\<rparr>)
   \<and> (currentExamIndex rm = 0 \<longrightarrow> previous_disabled rm \<and> previous_click rm = rm)"
  by (simp add: previous_click_def previous_disabled_def previous_onClick_def)

theorem previous_click_steps_witness:
  "0 < currentExamIndex (sample_review\<lparr>currentExamIndex := 2\<rparr>)
   \<and> previous_click (sample_review\<lparr>currentExamIndex := 2\<rparr>)
        = sample_review\<lparr>currentExamIndex := 1, showAnswer := False\<rparr>
   \<and> currentExamIndex sample_review = 0
   \<and> previous_click sample_review = sample_review"
  using previous_click_steps [of "sample_review\<lparr>currentExamIndex := 2\<rparr>"]
    previous_click_steps [of sample_review]
  by (simp add: sample_review_def)

text \<open>
  C9, as stated, fails when the clock gives the same reading to two creations: the
  two questions differ and carry the same id.
\<close>

theorem ids_unique_counterexample:
  "\<not> distinct (map idQ (questions
        (saves (\<lambda>qs. []) [(1736035200000, 1736035200000, sample_form (ascii ''data:a'')),
                           (1736035200000, 1736035200000, sample_form (ascii ''data:b''))] empty_app)))
   \<and> questions (saves (\<lambda>qs. []) [(1736035200000, 1736035200000, sample_form (ascii ''data:a'')),
                           (1736035200000, 1736035200000, sample_form (ascii ''data:b''))] empty_app) ! 0
      \<noteq> questions (saves (\<lambda>qs. []) [(1736035200000, 1736035200000, sample_form (ascii ''data:a'')),
                           (1736035200000, 1736035200000, sample_form (ascii ''data:b''))] empty_app) ! 1"
  by (simp add: handleSave_questions sample_form_def empty_app_def ascii_def)

text \<open>
  C9, amended. The id of a new question is the reading of the clock in decimal. When
  the ids of the collection are pairwise distinct, the readings of a sequence of
  creations are pairwise distinct and none of them is an id of the collection yet,
  the ids of the collection after the creations are pairwise distinct.
\<close>

theorem ids_unique_when_clock_differs:
  assumes "distinct (map idQ (questions app))"
    and "distinct (map fst evs)"
    and "\<forall>t \<in> set (map fst evs). Number_toString t \<notin> set (map idQ (questions app))"
  shows "distinct (map idQ (questions (saves stringify evs app)))
     \<and> (\<forall>i j. i < length (questions (saves stringify evs app))
            \<and> j < length (questions (saves stringify evs app)) \<and> i \<noteq> j
          \<longrightarrow> idQ (questions (saves stringify evs app) ! i)
              \<noteq> idQ (questions (saves stringify evs app) ! j))"
proof -
  have d: "distinct (map idQ (questions (saves stringify evs app)))"
    using assms by (rule saves_distinct)
  then have "\<forall>i j. i < length (questions (saves stringify evs app))
            \<and> j < length (questions (saves stringify evs app)) \<and> i \<noteq> j
          \<longrightarrow> idQ (questions (saves stringify evs app) ! i)
              \<noteq> idQ (questions (saves stringify evs app) ! j)"
    by (simp add: distinct_conv_nth)
  with d show ?thesis by blast
qed

theorem ids_unique_when_clock_differs_witness:
  "distinct (map idQ (questions empty_app))
   \<and> distinct (map fst [(1000 :: int, 1000 :: int, sample_form (ascii ''data:a'')),
                          (1001, 1001, sample_form (ascii ''data:b''))])
   \<and> distinct (map idQ (questions (saves (\<lambda>qs. [])
         [(1000, 1000, sample_form (ascii ''data:a'')),
          (1001, 1001, sample_form (ascii ''data:b''))] empty_app)))"
proof -
  have a: "distinct (map idQ (questions empty_app))" by (simp add: empty_app_def)
  have b: "distinct (map fst [(1000 :: int, 1000 :: int, sample_form (ascii ''data:a'')),
                          (1001, 1001, sample_form (ascii ''data:b''))])"
    by simp
  have c: "\<forall>t \<in> set (map fst [(1000 :: int, 1000 :: int, sample_form (ascii ''data:a'')),
                          (1001, 1001, sample_form (ascii ''data:b''))]).
             Number_toString t \<notin> set (map idQ (questions empty_app))"
    by (simp add: empty_app_def)
  from a b ids_unique_when_clock_differs [OF a b c, of "\<lambda>qs. []"] show ?thesis by blast
qed

text \<open>
  C10. \<open>handleUpdateQuestion\<close> keeps the length of the collection and the place of
  every record: a record whose id differs from that of \<open>q\<close> is left as it is, a
  record with the id of \<open>q\<close> becomes \<open>q\<close>, and when no record has that id the
  collection is returned unchanged, without an error.
\<close>

theorem handleUpdateQuestion_frame:
  "length (questions (handleUpdateQuestion stringify q app)) = length (questions app)
   \<and> (\<forall>k < length (questions app).
         questions (handleUpdateQuestion stringify q app) ! k
           = (if idQ (questions app ! k) = idQ q then q else questions app ! k))
   \<and> (\<forall>k < length (questions app). idQ (questions app ! k) \<noteq> idQ q \<longrightarrow>
         questions (handleUpdateQuestion stringify q app) ! k = questions app ! k)
   \<and> (idQ q \<notin> idQ ` set (questions app) \<longrightarrow>
         questions (handleUpdateQuestion stringify q app) = questions app)
   \<and> activeTab (handleUpdateQuestion stringify q app) = activeTab app"
proof -
  let ?f = "\<lambda>item. if idQ item = idQ q then q else item"
  have qs: "questions (handleUpdateQuestion stringify q app) = map ?f (questions app)"
    by (simp add: handleUpdateQuestion_def saveQuestions_def Let_def)
  have tab: "activeTab (handleUpdateQuestion stringify q app) = activeTab app"
    by (simp add: handleUpdateQuestion_def saveQuestions_def Let_def)
  have same: "map ?f (questions app) = questions app" if "idQ q \<notin> idQ ` set (questions app)"
  proof (intro map_idI)
    fix x assume "x \<in> set (questions app)"
    then have "idQ x \<in> idQ ` set (questions app)" by (rule imageI)
    with that have "idQ x \<noteq> idQ q" by metis
    then show "(if idQ x = idQ q then q else x) = x" by simp
  qed
  show ?thesis using qs tab same by simp
qed

theorem handleUpdateQuestion_frame_witness:
  "0 < length (questions sample_app)
   \<and> idQ (questions sample_app ! 0) \<noteq> idQ (sample_question (ascii ''1001'') (Some mastered) 1734652800000 2)
   \<and> questions (handleUpdateQuestion (\<lambda>qs. []) (sample_question (ascii ''1001'') (Some mastered) 1734652800000 2) sample_app) ! 0
        = questions sample_app ! 0
   \<and> idQ (sample_question (ascii ''999'') None 0 0) \<notin> idQ ` set (questions sample_app)
   \<and> questions (handleUpdateQuestion (\<lambda>qs. []) (sample_question (ascii ''999'') None 0 0) sample_app)
        = questions sample_app"
proof -
  have a: "0 < length (questions sample_app)" by (simp add: sample_app_def)
  have b: "idQ (questions sample_app ! 0) \<noteq> idQ (sample_question (ascii ''1001'') (Some mastered) 1734652800000 2)"
    by (simp add: sample_app_def sample_question_def ascii_def)
  have c: "idQ (sample_question (ascii ''999'') None 0 0) \<notin> idQ ` set (questions sample_app)"
    by (simp add: sample_app_def sample_question_def ascii_def)
  from a b c
    handleUpdateQuestion_frame [of "\<lambda>qs. []" "sample_question (ascii ''1001'') (Some mastered) 1734652800000 2" sample_app]
    handleUpdateQuestion_frame [of "\<lambda>qs. []" "sample_question (ascii ''999'') None 0 0" sample_app]
  show ?thesis by blast
qed

end
